theory Spec2Isabelle
  imports Main
begin

section \<open>Values, errors and console output\<close>

text \<open>
  The data passed through a hook chain is an arbitrary JavaScript value. The only
  distinction the plugin manager makes is whether a value is \<open>undefined\<close>
  (\<open>output !== undefined\<close> in \<open>runHook\<close>), so a value is either \<open>Undefined\<close> or some
  defined value of a type \<open>'v\<close> (which holds \<open>null\<close>, numbers, objects, ...).
\<close>

datatype 'v jsval = Undefined | Defined 'v

text \<open>
  Thrown values. The first three are the \<open>Error\<close> objects the manager itself
  creates; \<open>TypeError\<close> is what the runtime throws when something that is not a
  function is called or a property of \<open>null\<close> or \<open>undefined\<close> is read. The others are
  thrown by code outside the manager (a plugin's \<open>init\<close>, a hook callback, a module
  under \<open>require\<close>, \<open>fs\<close>): \<open>Thrown\<close> is an error object with its message,
  \<open>ThrownValue\<close> a value without a \<open>message\<close> property (a string, a number, ...),
  \<open>ThrownNullish\<close> the value \<open>null\<close> or \<open>undefined\<close>.
\<close>

datatype error =
    AlreadyRegistered string
  | MustHaveInit string
  | NotFound string
  | TypeError string
  | Thrown string
  | ThrownValue string
  | ThrownNullish

text \<open>
  \<open>error.message\<close>: the message of an error object, \<open>undefined\<close> for a value that
  has no such property; reading it from \<open>null\<close> or \<open>undefined\<close> throws.
\<close>

definition quoted :: "string \<Rightarrow> string" where
  "quoted name = [CHR 0x22] @ name @ [CHR 0x22]"

fun message :: "error \<Rightarrow> error + string jsval" where
  "message (AlreadyRegistered name) = Inr (Defined (''Plugin '' @ quoted name @ '' is already registered''))"
| "message (MustHaveInit name) = Inr (Defined (''Plugin '' @ quoted name @ '' must have an init() method''))"
| "message (NotFound name) = Inr (Defined (''Plugin '' @ quoted name @ '' not found''))"
| "message (TypeError m) = Inr (Defined m)"
| "message (Thrown m) = Inr (Defined m)"
| "message (ThrownValue v) = Inr Undefined"
| "message ThrownNullish = Inl (TypeError ''Cannot read properties of null or undefined'')"

text \<open>The lines the manager writes with \<open>console.log\<close>, \<open>console.warn\<close>, \<open>console.error\<close>.\<close>

datatype console_line =
    LogRegistered string
  | WarnAlreadyInitialized
  | LogInitializing nat
  | LogSkipping string
  | LogInitialized string
  | ErrorFailedInit string error
  | ErrorInHook string error
  | ErrorFailedLoadFrom string error
  | WarnDirNotFound string
  | LogLoading nat string
  | ErrorFailedLoad string "string jsval"

section \<open>Plugins\<close>

text \<open>
  An awaited call of external code settles: it resolves with a value or rejects
  (throws) with an error. A hook callback is a function from the current data to
  such an outcome. A callback that never settles is outside this model.
\<close>

datatype 'v settled = Resolves "'v jsval" | Rejects error

type_synonym 'v callback = "'v jsval \<Rightarrow> 'v settled"

text \<open>
  What a plugin's \<open>init(app, pluginManager)\<close> does is described by the calls it makes,
  in order, on its two arguments, followed by its outcome. The plugins of the
  repository call \<open>pluginManager.registerHook\<close>, \<open>pluginManager.addMiddleware\<close> and
  \<open>app.get\<close>. A middleware function and a route are identified by a label.
\<close>

datatype 'v action =
    CallRegisterHook string "'v callback"
  | CallAddMiddleware string
  | CallAppGet string

text \<open>
  The \<open>init\<close> property of a module: absent (or falsy), present but not a function, or
  a function, given by the calls it makes and the error it throws at the end, if any.
\<close>

datatype 'v init_prop =
    NoInit
  | NotAFunction
  | InitFunction "'v action list" "error option"

record metadata =
  md_name :: "string option"
  md_version :: "string option"
  md_description :: "string option"
  md_author :: "string option"

definition empty_metadata :: metadata where
  "empty_metadata = \<lparr>md_name = None, md_version = None, md_description = None, md_author = None\<rparr>"

record 'v plugin_module =
  m_init :: "'v init_prop"
  m_metadata :: "metadata option"

text \<open>The record stored by \<open>register\<close>: \<open>{ instance, enabled, metadata }\<close>.\<close>

record 'v plugin_data =
  plugin_instance :: "'v plugin_module"
  enabled :: bool
  metadata :: metadata

section \<open>The plugin manager\<close>

text \<open>
  Calls that leave the manager, recorded for stating which plugin was initialised
  and which hook was run: \<open>InitCall name\<close> for \<open>pluginData.instance.init(app, this)\<close>
  of the plugin \<open>name\<close>, \<open>HookRun hookName data\<close> for a run of \<open>runHook\<close>.
\<close>

datatype 'v call = InitCall string | HookRun string "'v jsval"

text \<open>
  The fields of \<open>PluginManager\<close> (\<open>plugins\<close>, \<open>hooks\<close>, \<open>middleware\<close>, \<open>initialized\<close>),
  followed by what the manager's methods change outside it: the routes of the
  Express application handed to \<open>init\<close>, the console, and the record of calls.
  \<open>plugins\<close> is a JavaScript \<open>Map\<close>, which iterates in insertion order: an
  association list in that order.
\<close>

record 'v manager =
  plugins :: "(string \<times> 'v plugin_data) list"
  hooks :: "string \<rightharpoonup> 'v callback list"
  middleware :: "string list"
  initialized :: bool
  routes :: "string list"
  console :: "console_line list"
  calls :: "'v call list"

definition new_manager :: "'v manager" where
  "new_manager = \<lparr>plugins = [], hooks = Map.empty, middleware = [], initialized = False,
     routes = [], console = [], calls = []\<rparr>"

text \<open>\<open>this.plugins.has(name)\<close> and \<open>this.plugins.get(name)\<close>.\<close>

definition plugins_get :: "'v manager \<Rightarrow> string \<Rightarrow> 'v plugin_data option" where
  "plugins_get st name = map_of (plugins st) name"

definition plugins_has :: "'v manager \<Rightarrow> string \<Rightarrow> bool" where
  "plugins_has st name = (plugins_get st name \<noteq> None)"

text \<open>\<open>plugin.init && typeof plugin.init === 'function'\<close>.\<close>

fun callable :: "'v init_prop \<Rightarrow> bool" where
  "callable NoInit = False"
| "callable NotAFunction = False"
| "callable (InitFunction acts outcome) = True"

text \<open>The reference returned by \<open>return this\<close>.\<close>

datatype handle = This

text \<open>
  A method returns its result, or the error it throws, together with the manager
  as the call left it.
\<close>

definition console_write :: "console_line \<Rightarrow> 'v manager \<Rightarrow> 'v manager" where
  "console_write l st = st\<lparr>console := console st @ [l]\<rparr>"

definition register :: "string \<Rightarrow> 'v plugin_module \<Rightarrow> 'v manager \<Rightarrow> (error + handle) \<times> 'v manager" where
  "register name plugin st =
     (if plugins_has st name then (Inl (AlreadyRegistered name), st)
      else if \<not> callable (m_init plugin) then (Inl (MustHaveInit name), st)
      else (Inr This,
            console_write (LogRegistered name)
              (st\<lparr>plugins := plugins st @
                 [(name, \<lparr>plugin_instance = plugin, enabled = True,
                          metadata = (case m_metadata plugin of None \<Rightarrow> empty_metadata | Some md \<Rightarrow> md)\<rparr>)]\<rparr>)))"

text \<open>\<open>list()\<close>: name, enabled flag and metadata of every plugin, in the order of the map.\<close>

definition list_plugins :: "'v manager \<Rightarrow> (string \<times> bool \<times> metadata) list" where
  "list_plugins st = map (\<lambda>(name, d). (name, enabled d, metadata d)) (plugins st)"

section \<open>Initialisation and hooks\<close>

text \<open>
  \<open>registerHook\<close>: the list of \<open>hookName\<close> is created empty if the map has none, then
  the callback is pushed at its end. \<open>addMiddleware\<close> pushes at the end of the stack.
\<close>

definition hooks_get :: "'v manager \<Rightarrow> string \<Rightarrow> 'v callback list" where
  "hooks_get st hookName = (case hooks st hookName of None \<Rightarrow> [] | Some cbs \<Rightarrow> cbs)"

definition registerHook :: "string \<Rightarrow> 'v callback \<Rightarrow> 'v manager \<Rightarrow> 'v manager" where
  "registerHook hookName callback st =
     st\<lparr>hooks := (hooks st)(hookName \<mapsto> hooks_get st hookName @ [callback])\<rparr>"

definition addMiddleware :: "string \<Rightarrow> 'v manager \<Rightarrow> 'v manager" where
  "addMiddleware mw st = st\<lparr>middleware := middleware st @ [mw]\<rparr>"

definition getMiddleware :: "'v manager \<Rightarrow> string list" where
  "getMiddleware st = middleware st"

text \<open>
  The loop of \<open>runHook\<close>. \<open>result\<close> is the value accumulated so far. A callback that
  resolves with a value other than \<open>undefined\<close> replaces it; the \<open>catch\<close> branch
  writes the error to the console and goes on with the next callback.
\<close>

fun run_callbacks :: "string \<Rightarrow> 'v callback list \<Rightarrow> 'v jsval \<Rightarrow> 'v manager \<Rightarrow> 'v jsval \<times> 'v manager" where
  "run_callbacks hookName [] result st = (result, st)"
| "run_callbacks hookName (callback # rest) result st =
     (case callback result of
        Resolves output \<Rightarrow>
          run_callbacks hookName rest (if output \<noteq> Undefined then output else result) st
      | Rejects e \<Rightarrow>
          run_callbacks hookName rest result (console_write (ErrorInHook hookName e) st))"

definition runHook :: "string \<Rightarrow> 'v jsval \<Rightarrow> 'v manager \<Rightarrow> (error + 'v jsval) \<times> 'v manager" where
  "runHook hookName data st =
     (case run_callbacks hookName (hooks_get st hookName) data
             (st\<lparr>calls := calls st @ [HookRun hookName data]\<rparr>) of
        (result, st1) \<Rightarrow> (Inr result, st1))"

text \<open>One call made by a plugin's \<open>init\<close> on the manager or on the application.\<close>

fun perform :: "'v action \<Rightarrow> 'v manager \<Rightarrow> 'v manager" where
  "perform (CallRegisterHook hookName callback) st = registerHook hookName callback st"
| "perform (CallAddMiddleware mw) st = addMiddleware mw st"
| "perform (CallAppGet route) st = st\<lparr>routes := routes st @ [route]\<rparr>"

text \<open>
  \<open>await pluginData.instance.init(app, this)\<close>: the calls of the plugin take effect,
  then the call resolves or rejects. Calling an \<open>init\<close> that is not a function is a
  \<open>TypeError\<close>.
\<close>

definition call_init :: "string \<Rightarrow> 'v plugin_module \<Rightarrow> 'v manager \<Rightarrow> (error + unit) \<times> 'v manager" where
  "call_init name plugin st =
     (case m_init plugin of
        InitFunction acts outcome \<Rightarrow>
          (case outcome of None \<Rightarrow> Inr () | Some e \<Rightarrow> Inl e,
           fold perform acts (st\<lparr>calls := calls st @ [InitCall name]\<rparr>))
      | NoInit \<Rightarrow> (Inl (TypeError ''init is not a function''), st)
      | NotAFunction \<Rightarrow> (Inl (TypeError ''init is not a function''), st))"

text \<open>
  The \<open>for (const [name, pluginData] of this.plugins)\<close> loop of \<open>init\<close>. The calls a
  plugin's \<open>init\<close> can make here leave the map of plugins as it is, so the loop runs
  over the entries the map had when it started.
\<close>

fun init_plugins :: "(string \<times> 'v plugin_data) list \<Rightarrow> 'v manager \<Rightarrow> (error + unit) \<times> 'v manager" where
  "init_plugins [] st = (Inr (), st)"
| "init_plugins ((name, pluginData) # rest) st =
     (if \<not> enabled pluginData then init_plugins rest (console_write (LogSkipping name) st)
      else case call_init name (plugin_instance pluginData) st of
             (Inr u, st1) \<Rightarrow> init_plugins rest (console_write (LogInitialized name) st1)
           | (Inl e, st1) \<Rightarrow> (Inl e, console_write (ErrorFailedInit name e) st1))"

text \<open>
  \<open>init(app)\<close>, which the specification calls \<open>initAll\<close>. The datum of the
  \<open>plugins:initialized\<close> hook is the object \<open>{ app }\<close>, a defined value.
\<close>

definition init :: "'v \<Rightarrow> 'v manager \<Rightarrow> (error + unit) \<times> 'v manager" where
  "init app st =
     (if initialized st then (Inr (), console_write WarnAlreadyInitialized st)
      else case init_plugins (plugins st)
                  (console_write (LogInitializing (length (plugins st))) st) of
             (Inl e, st1) \<Rightarrow> (Inl e, st1)
           | (Inr u, st1) \<Rightarrow>
               (case runHook ''plugins:initialized'' (Defined app) (st1\<lparr>initialized := True\<rparr>) of
                  (Inl e, st2) \<Rightarrow> (Inl e, st2)
                | (Inr r, st2) \<Rightarrow> (Inr (), st2)))"

text \<open>\<open>enable\<close> and \<open>disable\<close> set the flag of the record stored under \<open>name\<close>.\<close>

definition set_enabled :: "string \<Rightarrow> bool \<Rightarrow> (string \<times> 'v plugin_data) list \<Rightarrow> (string \<times> 'v plugin_data) list" where
  "set_enabled name b ps = map (\<lambda>(n, d). if n = name then (n, d\<lparr>enabled := b\<rparr>) else (n, d)) ps"

definition enable :: "string \<Rightarrow> 'v manager \<Rightarrow> (error + unit) \<times> 'v manager" where
  "enable name st =
     (case plugins_get st name of
        None \<Rightarrow> (Inl (NotFound name), st)
      | Some plugin \<Rightarrow> (Inr (), st\<lparr>plugins := set_enabled name True (plugins st)\<rparr>))"

definition disable :: "string \<Rightarrow> 'v manager \<Rightarrow> (error + unit) \<times> 'v manager" where
  "disable name st =
     (case plugins_get st name of
        None \<Rightarrow> (Inl (NotFound name), st)
      | Some plugin \<Rightarrow> (Inr (), st\<lparr>plugins := set_enabled name False (plugins st)\<rparr>))"

section \<open>Loading plugins from files\<close>

text \<open>
  The string operations of \<open>load\<close> and \<open>loadFromDirectory\<close>:
  \<open>s.split('/')\<close>, \<open>array.pop()\<close>, \<open>s.replace(pattern, replacement)\<close> with a string
  pattern (which replaces the first occurrence of the pattern, if there is one) and
  \<open>s.endsWith(suffix)\<close>.
\<close>

fun split :: "char \<Rightarrow> string \<Rightarrow> string list" where
  "split sep [] = [[]]"
| "split sep (c # cs) =
     (if c = sep then [] # split sep cs
      else case split sep cs of
             [] \<Rightarrow> [[c]]
           | first # others \<Rightarrow> (c # first) # others)"

definition pop :: "'a list \<Rightarrow> 'a option" where
  "pop xs = (case rev xs of [] \<Rightarrow> None | x # before \<Rightarrow> Some x)"

definition startsWith :: "string \<Rightarrow> string \<Rightarrow> bool" where
  "startsWith s pat = (take (length pat) s = pat)"

fun replace :: "string \<Rightarrow> string \<Rightarrow> string \<Rightarrow> string" where
  "replace pat rep [] = (if pat = [] then rep else [])"
| "replace pat rep (c # cs) =
     (if startsWith (c # cs) pat then rep @ drop (length pat) (c # cs)
      else c # replace pat rep cs)"

definition endsWith :: "string \<Rightarrow> string \<Rightarrow> bool" where
  "endsWith s suf = (length suf \<le> length s \<and> drop (length s - length suf) s = suf)"

text \<open>
  \<open>path.join(pluginsDir, file)\<close> of Node, for POSIX paths: the arguments that are not
  empty are joined by \<open>/\<close> and the result is normalised. Normalisation drops empty and
  \<open>.\<close> segments, lets a \<open>..\<close> segment remove the segment before it (or keeps it, in a
  relative path, when there is none to remove), and keeps a leading and a trailing
  separator.
\<close>

fun join :: "string \<Rightarrow> string list \<Rightarrow> string" where
  "join sep [] = []"
| "join sep [x] = x"
| "join sep (x # y # ys) = x @ sep @ join sep (y # ys)"

definition normalize_segment :: "bool \<Rightarrow> string \<Rightarrow> string list \<Rightarrow> string list" where
  "normalize_segment allowAboveRoot seg res =
     (if seg = [] \<or> seg = ''.'' then res
      else if seg = ''..'' then
        (if res \<noteq> [] \<and> last res \<noteq> ''..'' then butlast res
         else if allowAboveRoot then res @ [''..'']
         else res)
      else res @ [seg])"

definition normalizeString :: "string \<Rightarrow> bool \<Rightarrow> string" where
  "normalizeString path allowAboveRoot =
     join ''/'' (fold (normalize_segment allowAboveRoot) (split CHR ''/'' path) [])"

definition normalize :: "string \<Rightarrow> string" where
  "normalize path =
     (if path = [] then ''.''
      else let isAbsolute = (hd path = CHR ''/'');
               trailingSeparator = (last path = CHR ''/'');
               p = normalizeString path (\<not> isAbsolute)
           in if p = [] then (if isAbsolute then ''/'' else if trailingSeparator then ''./'' else ''.'')
              else let q = (if trailingSeparator then p @ ''/'' else p)
                   in if isAbsolute then ''/'' @ q else q)"

definition path_join :: "string \<Rightarrow> string \<Rightarrow> string" where
  "path_join dir file =
     (if dir = [] \<and> file = [] then ''.''
      else normalize (if dir = [] then file else if file = [] then dir else dir @ ''/'' @ file))"

text \<open>
  What the manager reads from outside: the file system, as seen by \<open>fs.existsSync\<close>
  and \<open>fs.readdirSync\<close>, and the module loader \<open>require\<close>. A directory is given by the
  names \<open>readdirSync\<close> returns for it, in the order it returns them.
\<close>

datatype fs_node = Missing | RegularFile | Directory "string list"

record 'v env =
  fs_node_at :: "string \<Rightarrow> fs_node"
  require :: "string \<Rightarrow> error + 'v plugin_module"

definition existsSync :: "'v env \<Rightarrow> string \<Rightarrow> bool" where
  "existsSync env p = (fs_node_at env p \<noteq> Missing)"

definition readdirSync :: "'v env \<Rightarrow> string \<Rightarrow> error + string list" where
  "readdirSync env p =
     (case fs_node_at env p of
        Directory names \<Rightarrow> Inr names
      | RegularFile \<Rightarrow> Inl (Thrown ''ENOTDIR'')
      | Missing \<Rightarrow> Inl (Thrown ''ENOENT''))"

text \<open>
  \<open>plugin.metadata?.name || pluginPath.split('/').pop().replace('.js', '')\<close>.
  The left operand is taken when it is truthy: a name that is present and not the
  empty string.
\<close>

definition default_name :: "string \<Rightarrow> error + string" where
  "default_name pluginPath =
     (case pop (split CHR ''/'' pluginPath) of
        None \<Rightarrow> Inl (TypeError ''pop() is undefined'')
      | Some base \<Rightarrow> Inr (replace ''.js'' [] base))"

definition derive_name :: "'v plugin_module \<Rightarrow> string \<Rightarrow> error + string" where
  "derive_name plugin pluginPath =
     (case (case m_metadata plugin of None \<Rightarrow> None | Some md \<Rightarrow> md_name md) of
        None \<Rightarrow> default_name pluginPath
      | Some n \<Rightarrow> if n \<noteq> [] then Inr n else default_name pluginPath)"

text \<open>
  \<open>load(pluginPath)\<close>: every error of the \<open>try\<close> block is written to the console and
  thrown again.
\<close>

definition load_body :: "'v env \<Rightarrow> string \<Rightarrow> 'v manager \<Rightarrow> (error + string) \<times> 'v manager" where
  "load_body env pluginPath st =
     (case require env pluginPath of
        Inl e \<Rightarrow> (Inl e, st)
      | Inr plugin \<Rightarrow>
          (case derive_name plugin pluginPath of
             Inl e \<Rightarrow> (Inl e, st)
           | Inr name \<Rightarrow>
               (case register name plugin st of
                  (Inl e, st1) \<Rightarrow> (Inl e, st1)
                | (Inr this, st1) \<Rightarrow> (Inr name, st1))))"

definition load :: "'v env \<Rightarrow> string \<Rightarrow> 'v manager \<Rightarrow> (error + string) \<times> 'v manager" where
  "load env pluginPath st =
     (case load_body env pluginPath st of
        (Inl e, st1) \<Rightarrow> (Inl e, console_write (ErrorFailedLoadFrom pluginPath e) st1)
      | (Inr name, st1) \<Rightarrow> (Inr name, st1))"

text \<open>
  The \<open>for (const file of files)\<close> loop of \<open>loadFromDirectory\<close>. Its \<open>catch\<close> branch
  writes \<open>error.message\<close> to the console and goes on with the next file; when reading
  the message throws, that error leaves the loop.
\<close>

fun load_files :: "'v env \<Rightarrow> string list \<Rightarrow> 'v manager \<Rightarrow> (error + unit) \<times> 'v manager" where
  "load_files env [] st = (Inr (), st)"
| "load_files env (file # rest) st =
     (case load env file st of
        (Inr name, st1) \<Rightarrow> load_files env rest st1
      | (Inl e, st1) \<Rightarrow>
          (case message e of
             Inl t \<Rightarrow> (Inl t, st1)
           | Inr m \<Rightarrow> load_files env rest (console_write (ErrorFailedLoad file m) st1)))"

definition plugin_files :: "string \<Rightarrow> string list \<Rightarrow> string list" where
  "plugin_files pluginsDir names =
     map (\<lambda>file. path_join pluginsDir file) (filter (\<lambda>file. endsWith file ''.js'') names)"

definition loadFromDirectory :: "'v env \<Rightarrow> string \<Rightarrow> 'v manager \<Rightarrow> (error + unit) \<times> 'v manager" where
  "loadFromDirectory env pluginsDir st =
     (if \<not> existsSync env pluginsDir then (Inr (), console_write (WarnDirNotFound pluginsDir) st)
      else case readdirSync env pluginsDir of
             Inl e \<Rightarrow> (Inl e, st)
           | Inr names \<Rightarrow>
               (let files = plugin_files pluginsDir names
                in load_files env files (console_write (LogLoading (length files) pluginsDir) st)))"

section \<open>Sequences of calls\<close>

text \<open>
  The host uses the manager by calling its methods one after the other. When a call
  throws, the host sees the error and the manager stays as the call left it.
\<close>

datatype 'v method_call =
    Register string "'v plugin_module"
  | Init 'v
  | RegisterHook string "'v callback"
  | RunHook string "'v jsval"
  | AddMiddleware string
  | Enable string
  | Disable string
  | Load string
  | LoadFromDirectory string

fun exec :: "'v env \<Rightarrow> 'v method_call \<Rightarrow> 'v manager \<Rightarrow> 'v manager" where
  "exec env (Register name plugin) st = snd (register name plugin st)"
| "exec env (Init app) st = snd (init app st)"
| "exec env (RegisterHook hookName callback) st = registerHook hookName callback st"
| "exec env (RunHook hookName data) st = snd (runHook hookName data st)"
| "exec env (AddMiddleware mw) st = addMiddleware mw st"
| "exec env (Enable name) st = snd (enable name st)"
| "exec env (Disable name) st = snd (disable name st)"
| "exec env (Load pluginPath) st = snd (load env pluginPath st)"
| "exec env (LoadFromDirectory pluginsDir) st = snd (loadFromDirectory env pluginsDir st)"

definition exec_all :: "'v env \<Rightarrow> 'v method_call list \<Rightarrow> 'v manager \<Rightarrow> 'v manager" where
  "exec_all env cs st = fold (exec env) cs st"

text \<open>The plugins whose \<open>init\<close> was called, in the order of the calls.\<close>

fun init_calls :: "'v call list \<Rightarrow> string list" where
  "init_calls [] = []"
| "init_calls (InitCall name # cs) = name # init_calls cs"
| "init_calls (HookRun hookName data # cs) = init_calls cs"

text \<open>
  Whether a call of the \<open>init\<close> property resolves, and the names of the enabled plugins
  among some entries of the map, in their order.
\<close>

fun resolves :: "'v init_prop \<Rightarrow> bool" where
  "resolves (InitFunction acts None) = True"
| "resolves (InitFunction acts (Some e)) = False"
| "resolves NoInit = False"
| "resolves NotAFunction = False"

definition enabled_names :: "(string \<times> 'v plugin_data) list \<Rightarrow> string list" where
  "enabled_names ps = map fst (filter (\<lambda>(name, d). enabled d) ps)"

section \<open>Example plugins\<close>

text \<open>A module without metadata whose \<open>init\<close> makes the given calls and ends as given.\<close>

definition plugin_of :: "'v action list \<Rightarrow> error option \<Rightarrow> 'v plugin_module" where
  "plugin_of acts outcome = \<lparr>m_init = InitFunction acts outcome, m_metadata = None\<rparr>"

text \<open>
  A manager holding four plugins: \<open>a\<close> adds a middleware and resolves, \<open>b\<close> is disabled,
  \<open>c\<close> adds a route and then throws, \<open>d\<close> adds a route and resolves.
\<close>

definition entry :: "string \<Rightarrow> bool \<Rightarrow> 'v plugin_module \<Rightarrow> string \<times> 'v plugin_data" where
  "entry name en plugin = (name, \<lparr>plugin_instance = plugin, enabled = en, metadata = empty_metadata\<rparr>)"

definition demo_manager :: "nat manager" where
  "demo_manager = new_manager\<lparr>plugins :=
     [entry ''a'' True (plugin_of [CallAddMiddleware ''mw-a''] None),
      entry ''b'' False (plugin_of [CallAppGet ''/b''] None),
      entry ''c'' True (plugin_of [CallAppGet ''/c''] (Some (Thrown ''boom''))),
      entry ''d'' True (plugin_of [CallAppGet ''/d''] None)]\<rparr>"

text \<open>A manager whose plugins all resolve: \<open>a\<close> adds a middleware, \<open>b\<close> is disabled.\<close>

definition ok_manager :: "nat manager" where
  "ok_manager = new_manager\<lparr>plugins :=
     [entry ''a'' True (plugin_of [CallAddMiddleware ''mw-a''] None),
      entry ''b'' False (plugin_of [CallAppGet ''/b''] None)]\<rparr>"

text \<open>
  A file system with the directory \<open>plugins\<close>, for which \<open>readdirSync\<close> returns
  \<open>b.js\<close> before \<open>a.js\<close>, and the regular file \<open>index.js\<close>. Both plugin files
  hold a module without metadata whose \<open>init\<close> resolves; nothing else can be required.
\<close>

definition demo_env :: "nat env" where
  "demo_env = \<lparr>
     fs_node_at = (\<lambda>p. if p = ''plugins'' then Directory [''b.js'', ''a.js'']
                        else if p = ''index.js'' then RegularFile else Missing),
     require = (\<lambda>p. if p = ''plugins/a.js'' \<or> p = ''plugins/b.js'' then Inr (plugin_of [] None)
                     else Inl (Thrown ''Cannot find module''))\<rparr>"



text \<open>
  A module loader that finds, at every path, a module without metadata whose \<open>init\<close>
  resolves.
\<close>

definition any_env :: "nat env" where
  "any_env = \<lparr>fs_node_at = (\<lambda>p. Missing), require = (\<lambda>p. Inr (plugin_of [] None))\<rparr>"

section \<open>Registration\<close>

text \<open>
  C4. \<open>register(name, module)\<close> fails if and only if \<open>name\<close> is already present or the
  module has no callable \<open>init\<close>. When the name is already present the manager is left
  exactly as it was, so the earlier record is intact. On success the record stored under
  \<open>name\<close> holds the module with \<open>enabled = true\<close>, it is the last entry of the map, and the
  manager itself is returned.
\<close>

theorem register_contract:
  "(isl (fst (register name plugin st)) \<longleftrightarrow> plugins_has st name \<or> \<not> callable (m_init plugin))
   \<and> (plugins_has st name \<longrightarrow>
        register name plugin st = (Inl (AlreadyRegistered name), st))
   \<and> (\<not> isl (fst (register name plugin st)) \<longrightarrow>
        fst (register name plugin st) = Inr This
        \<and> (\<exists>d. plugins (snd (register name plugin st)) = plugins st @ [(name, d)]
               \<and> plugins_get (snd (register name plugin st)) name = Some d
               \<and> plugin_instance d = plugin \<and> enabled d = True))"
  by (simp add: register_def console_write_def plugins_has_def plugins_get_def map_add_def)

theorem register_contract_witness:
  "\<not> isl (fst (register ''a'' (plugin_of [] None) (new_manager :: nat manager)))
   \<and> fst (register ''a'' (plugin_of [] None) (new_manager :: nat manager)) = Inr This
   \<and> plugins_has (snd (register ''a'' (plugin_of [] None) (new_manager :: nat manager))) ''a''
   \<and> register ''a'' (plugin_of [CallAppGet ''/x''] None) (snd (register ''a'' (plugin_of [] None) (new_manager :: nat manager)))
       = (Inl (AlreadyRegistered ''a''), snd (register ''a'' (plugin_of [] None) new_manager))"
proof -
  let ?st1 = "snd (register ''a'' (plugin_of [] None) (new_manager :: nat manager))"
  have ok: "\<not> isl (fst (register ''a'' (plugin_of [] None) (new_manager :: nat manager)))"
    by (simp add: register_def plugins_has_def plugins_get_def new_manager_def plugin_of_def)
  have dup: "plugins_has ?st1 ''a''"
    by (simp add: register_def plugins_has_def plugins_get_def new_manager_def plugin_of_def console_write_def)
  from register_contract [where name = "''a''" and plugin = "plugin_of [] None" and st = "new_manager :: nat manager"] ok
  have a: "fst (register ''a'' (plugin_of [] None) (new_manager :: nat manager)) = Inr This" by blast
  from register_contract [where name = "''a''" and plugin = "plugin_of [CallAppGet ''/x''] None" and st = ?st1] dup
  have b: "register ''a'' (plugin_of [CallAppGet ''/x''] None) ?st1 = (Inl (AlreadyRegistered ''a''), ?st1)" by blast
  show ?thesis using ok a dup b by blast
qed

section \<open>Running hooks\<close>

lemma run_callbacks_append:
  "run_callbacks h (xs @ ys) v st =
     (case run_callbacks h xs v st of (v1, st1) \<Rightarrow> run_callbacks h ys v1 st1)"
  by (induction xs arbitrary: v st) (auto split: settled.splits)

lemma run_callbacks_value:
  "fst (run_callbacks h cbs v st) = fst (run_callbacks h cbs v st')"
  by (induction cbs arbitrary: v st st') (auto split: settled.splits)

lemma hooks_get_registerHook:
  "hooks_get (registerHook h cb st) h = hooks_get st h @ [cb]"
  by (simp add: hooks_get_def registerHook_def)

text \<open>
  C2. \<open>runHook\<close> threads the data through the callbacks in registration order. With no
  callbacks registered for the name the data comes back unchanged. A callback
  registered last runs on the value the earlier callbacks produced, and what it resolves
  with becomes the result unless it is \<open>undefined\<close>, in which case that value is kept.
  With the callbacks \<open>[f1, f2]\<close>, where \<open>f1\<close> returns \<open>undefined\<close> and \<open>f2\<close> returns a
  value \<open>w\<close>, the result is \<open>w\<close>.
\<close>

theorem runHook_threads:
  "(hooks st h = None \<longrightarrow> fst (runHook h data st) = Inr data)
   \<and> (\<forall>v out. fst (runHook h data st) = Inr v \<and> cb v = Resolves out \<longrightarrow>
        fst (runHook h data (registerHook h cb st)) = Inr (if out = Undefined then v else out))
   \<and> (hooks st h = Some [f1, f2] \<and> f1 data = Resolves Undefined \<and> f2 data = Resolves (Defined w) \<longrightarrow>
        fst (runHook h data st) = Inr (Defined w))"
proof (intro conjI impI allI)
  assume "hooks st h = None"
  then show "fst (runHook h data st) = Inr data"
    by (simp add: runHook_def hooks_get_def)
next
  fix v out
  assume a: "fst (runHook h data st) = Inr v \<and> cb v = Resolves out"
  let ?s = "st\<lparr>calls := calls st @ [HookRun h data]\<rparr>"
  let ?s' = "(registerHook h cb st)\<lparr>calls := calls (registerHook h cb st) @ [HookRun h data]\<rparr>"
  from a have v: "fst (run_callbacks h (hooks_get st h) data ?s) = v"
    by (simp add: runHook_def split: prod.splits)
  have "fst (run_callbacks h (hooks_get st h) data ?s') = v"
    using v run_callbacks_value [of h "hooks_get st h" data ?s' ?s] by simp
  then obtain s1 where r: "run_callbacks h (hooks_get st h) data ?s' = (v, s1)"
    by (cases "run_callbacks h (hooks_get st h) data ?s'") simp
  have "run_callbacks h (hooks_get st h @ [cb]) data ?s' = run_callbacks h [cb] v s1"
    by (simp add: run_callbacks_append r)
  with a show "fst (runHook h data (registerHook h cb st)) = Inr (if out = Undefined then v else out)"
    by (simp add: runHook_def hooks_get_registerHook split: prod.splits)
next
  assume "hooks st h = Some [f1, f2] \<and> f1 data = Resolves Undefined \<and> f2 data = Resolves (Defined w)"
  then show "fst (runHook h data st) = Inr (Defined w)"
    by (simp add: runHook_def hooks_get_def)
qed

theorem runHook_threads_witness:
  "fst (runHook ''x'' (Defined (5::nat)) new_manager) = Inr (Defined 5)
   \<and> fst (runHook ''x'' (Defined (5::nat)) (registerHook ''x'' (\<lambda>v. Resolves (Defined 7)) new_manager)) = Inr (Defined 7)
   \<and> fst (runHook ''x'' (Defined (5::nat)) (registerHook ''x'' (\<lambda>v. Resolves Undefined) new_manager)) = Inr (Defined 5)
   \<and> fst (runHook ''x'' (Defined (5::nat))
        (new_manager\<lparr>hooks := [''x'' \<mapsto> [\<lambda>v. Resolves Undefined, \<lambda>v. Resolves (Defined 9)]]\<rparr>)) = Inr (Defined 9)"
proof -
  let ?h = "''x''" and ?d = "Defined (5::nat)"
  have none: "hooks (new_manager :: nat manager) ?h = None"
    by (simp add: new_manager_def)
  from runHook_threads [where st = "new_manager :: nat manager" and h = ?h and data = ?d] none
  have a: "fst (runHook ?h ?d new_manager) = Inr ?d"
    by blast
  have r7: "(\<lambda>v::nat jsval. Resolves (Defined (7::nat))) ?d = Resolves (Defined 7)"
    by simp
  from runHook_threads [where st = "new_manager :: nat manager" and h = ?h and data = ?d
      and cb = "\<lambda>v. Resolves (Defined 7)"] a r7
  have b: "fst (runHook ?h ?d (registerHook ?h (\<lambda>v. Resolves (Defined 7)) new_manager)) = Inr (Defined 7)"
    by force
  have ru: "(\<lambda>v::nat jsval. (Resolves Undefined :: nat settled)) ?d = Resolves Undefined"
    by simp
  from runHook_threads [where st = "new_manager :: nat manager" and h = ?h and data = ?d
      and cb = "\<lambda>v. Resolves Undefined"] a ru
  have c: "fst (runHook ?h ?d (registerHook ?h (\<lambda>v. Resolves Undefined) new_manager)) = Inr ?d"
    by force
  let ?st = "(new_manager :: nat manager)\<lparr>hooks := [?h \<mapsto> [\<lambda>v. Resolves Undefined, \<lambda>v. Resolves (Defined 9)]]\<rparr>"
  have two: "hooks ?st ?h = Some [\<lambda>v. Resolves Undefined, \<lambda>v. Resolves (Defined 9)]"
    by simp
  from runHook_threads [where st = ?st and h = ?h and data = ?d
      and ?f1.0 = "\<lambda>v. Resolves Undefined" and ?f2.0 = "\<lambda>v. Resolves (Defined 9)" and w = 9] two
  have d: "fst (runHook ?h ?d ?st) = Inr (Defined 9)"
    by simp
  show ?thesis using a b c d by blast
qed

text \<open>
  C3. \<open>runHook\<close> never throws: it always returns a value. When a callback throws on the
  value \<open>v\<close> accumulated by the callbacks before it, the error is written to the
  console, and the callbacks after it run, starting from the same value \<open>v\<close>.
\<close>

theorem runHook_absorbs_errors:
  "(\<exists>r st1. runHook h data st = (Inr r, st1))
   \<and> (hooks_get st h = pre @ cb # post
        \<and> run_callbacks h pre data (st\<lparr>calls := calls st @ [HookRun h data]\<rparr>) = (v, st1)
        \<and> cb v = Rejects e \<longrightarrow>
      runHook h data st =
        (case run_callbacks h post v (console_write (ErrorInHook h e) st1) of
           (r, st2) \<Rightarrow> (Inr r, st2)))"
  by (auto simp: runHook_def run_callbacks_append split: prod.splits)

theorem runHook_absorbs_errors_witness:
  "runHook ''x'' (Defined (0::nat))
     (new_manager\<lparr>hooks := [''x'' \<mapsto>
        [\<lambda>v. Resolves (Defined 1), \<lambda>v. Rejects (Thrown ''boom''),
         \<lambda>v. case v of Undefined \<Rightarrow> Resolves Undefined | Defined n \<Rightarrow> Resolves (Defined (Suc n))]]\<rparr>)
   = (Inr (Defined 2),
      new_manager\<lparr>hooks := [''x'' \<mapsto>
        [\<lambda>v. Resolves (Defined 1), \<lambda>v. Rejects (Thrown ''boom''),
         \<lambda>v. case v of Undefined \<Rightarrow> Resolves Undefined | Defined n \<Rightarrow> Resolves (Defined (Suc n))]],
        console := [ErrorInHook ''x'' (Thrown ''boom'')],
        calls := [HookRun ''x'' (Defined 0)]\<rparr>)"
proof -
  let ?f1 = "\<lambda>v::nat jsval. Resolves (Defined (1::nat))"
  let ?f2 = "\<lambda>v::nat jsval. (Rejects (Thrown ''boom'') :: nat settled)"
  let ?f3 = "\<lambda>v::nat jsval. case v of Undefined \<Rightarrow> Resolves Undefined | Defined n \<Rightarrow> Resolves (Defined (Suc n))"
  let ?st = "(new_manager :: nat manager)\<lparr>hooks := [''x'' \<mapsto> [?f1, ?f2, ?f3]]\<rparr>"
  let ?st1 = "?st\<lparr>calls := calls ?st @ [HookRun ''x'' (Defined 0)]\<rparr>"
  have h1: "hooks_get ?st ''x'' = [?f1] @ ?f2 # [?f3]"
    by (simp add: hooks_get_def)
  have h2: "run_callbacks ''x'' [?f1] (Defined 0) ?st1 = (Defined 1, ?st1)"
    by simp
  have h3: "?f2 (Defined 1) = Rejects (Thrown ''boom'')"
    by simp
  from runHook_absorbs_errors [where st = ?st and h = "''x''" and data = "Defined 0"
      and pre = "[?f1]" and cb = ?f2 and post = "[?f3]" and v = "Defined 1" and ?st1.0 = ?st1
      and e = "Thrown ''boom''"] h1 h2 h3
  have "runHook ''x'' (Defined 0) ?st =
        (case run_callbacks ''x'' [?f3] (Defined 1) (console_write (ErrorInHook ''x'' (Thrown ''boom'')) ?st1) of
           (r, st2) \<Rightarrow> (Inr r, st2))"
    by blast
  then show ?thesis
    by (simp add: console_write_def new_manager_def)
qed

section \<open>Initialisation\<close>

lemma fold_perform_keeps:
  "plugins (fold perform acts st) = plugins st
   \<and> initialized (fold perform acts st) = initialized st
   \<and> console (fold perform acts st) = console st
   \<and> calls (fold perform acts st) = calls st"
proof (induction acts arbitrary: st)
  case Nil
  show ?case by simp
next
  case (Cons a acts)
  have "plugins (perform a st) = plugins st \<and> initialized (perform a st) = initialized st
        \<and> console (perform a st) = console st \<and> calls (perform a st) = calls st"
    by (cases a) (simp_all add: registerHook_def addMiddleware_def)
  with Cons show ?case by simp
qed

lemma call_init_resolves:
  assumes "resolves (m_init plugin)"
  shows "\<exists>st1. call_init name plugin st = (Inr (), st1)
           \<and> plugins st1 = plugins st \<and> initialized st1 = initialized st
           \<and> console st1 = console st \<and> calls st1 = calls st @ [InitCall name]"
  using assms
  by (cases "m_init plugin" rule: resolves.cases) (simp_all add: call_init_def fold_perform_keeps)

lemma call_init_rejects:
  assumes "m_init plugin = InitFunction acts (Some e)"
  shows "\<exists>st1. call_init name plugin st = (Inl e, st1)
           \<and> plugins st1 = plugins st \<and> initialized st1 = initialized st
           \<and> console st1 = console st \<and> calls st1 = calls st @ [InitCall name]"
  using assms by (simp add: call_init_def fold_perform_keeps)


lemma init_plugins_prefix:
  assumes "\<forall>(n, p) \<in> set pre. enabled p \<longrightarrow> resolves (m_init (plugin_instance p))"
  shows "\<exists>st1. init_plugins (pre @ rest) st = init_plugins rest st1
           \<and> plugins st1 = plugins st \<and> initialized st1 = initialized st
           \<and> calls st1 = calls st @ map InitCall (enabled_names pre)"
  using assms
proof (induction pre arbitrary: st)
  case Nil
  show ?case by (intro exI [of _ st]) (simp add: enabled_names_def)
next
  case (Cons x pre)
  obtain name d where x: "x = (name, d)" by (cases x)
  from Cons.prems have rest_ok: "\<forall>(n, p) \<in> set pre. enabled p \<longrightarrow> resolves (m_init (plugin_instance p))"
    by simp
  show ?case
  proof (cases "enabled d")
    case False
    from Cons.IH [OF rest_ok, of "console_write (LogSkipping name) st"]
    obtain s2 where "init_plugins (pre @ rest) (console_write (LogSkipping name) st) = init_plugins rest s2"
      "plugins s2 = plugins (console_write (LogSkipping name) st)"
      "initialized s2 = initialized (console_write (LogSkipping name) st)"
      "calls s2 = calls (console_write (LogSkipping name) st) @ map InitCall (enabled_names pre)"
      by blast
    then show ?thesis using False x
      by (intro exI [of _ s2]) (simp add: enabled_names_def console_write_def)
  next
    case True
    with Cons.prems x have "resolves (m_init (plugin_instance d))" by simp
    from call_init_resolves [OF this, of name st]
    obtain s1 where s1: "call_init name (plugin_instance d) st = (Inr (), s1)"
      "plugins s1 = plugins st" "initialized s1 = initialized st"
      "calls s1 = calls st @ [InitCall name]"
      by blast
    from Cons.IH [OF rest_ok, of "console_write (LogInitialized name) s1"]
    obtain s2 where "init_plugins (pre @ rest) (console_write (LogInitialized name) s1) = init_plugins rest s2"
      "plugins s2 = plugins (console_write (LogInitialized name) s1)"
      "initialized s2 = initialized (console_write (LogInitialized name) s1)"
      "calls s2 = calls (console_write (LogInitialized name) s1) @ map InitCall (enabled_names pre)"
      by blast
    then show ?thesis using True x s1
      by (intro exI [of _ s2]) (simp add: enabled_names_def console_write_def)
  qed
qed

lemma fold_perform_adds:
  "\<exists>mws rts. \<forall>st. middleware (fold perform acts st) = middleware st @ mws
                 \<and> routes (fold perform acts st) = routes st @ rts"
proof (induction acts)
  case Nil
  show ?case by (intro exI [of _ "[]"]) simp
next
  case (Cons a acts)
  then obtain mws rts where IH: "\<And>st. middleware (fold perform acts st) = middleware st @ mws"
    "\<And>st. routes (fold perform acts st) = routes st @ rts"
    by blast
  show ?case
  proof (cases a)
    case (CallRegisterHook h cb)
    then show ?thesis using IH
      by (intro exI [of _ mws] exI [of _ rts]) (simp add: registerHook_def)
  next
    case (CallAddMiddleware mw)
    then show ?thesis using IH
      by (intro exI [of _ "mw # mws"] exI [of _ rts]) (simp add: addMiddleware_def)
  next
    case (CallAppGet route)
    then show ?thesis using IH
      by (intro exI [of _ mws] exI [of _ "route # rts"]) simp
  qed
qed

lemma call_init_adds:
  "\<exists>mws rts. \<forall>st. middleware (snd (call_init name plugin st)) = middleware st @ mws
                 \<and> routes (snd (call_init name plugin st)) = routes st @ rts"
proof (cases "m_init plugin")
  case (InitFunction acts outcome)
  from fold_perform_adds [of acts] obtain mws rts where
    "\<And>st. middleware (fold perform acts st) = middleware st @ mws"
    "\<And>st. routes (fold perform acts st) = routes st @ rts"
    by blast
  with InitFunction show ?thesis
    by (intro exI [of _ mws] exI [of _ rts]) (simp add: call_init_def)
qed (intro exI [of _ "[]"], simp add: call_init_def)+

lemma init_plugins_adds:
  "\<exists>mws rts. \<forall>st. middleware (snd (init_plugins ps st)) = middleware st @ mws
                 \<and> routes (snd (init_plugins ps st)) = routes st @ rts"
proof (induction ps)
  case Nil
  show ?case by (intro exI [of _ "[]"]) simp
next
  case (Cons x ps)
  obtain name d where x: "x = (name, d)" by (cases x)
  from Cons obtain mws rts where IH: "\<And>st. middleware (snd (init_plugins ps st)) = middleware st @ mws"
    "\<And>st. routes (snd (init_plugins ps st)) = routes st @ rts"
    by blast
  from call_init_adds [of name "plugin_instance d"] obtain m1 r1 where
    c: "\<And>st. middleware (snd (call_init name (plugin_instance d) st)) = middleware st @ m1"
       "\<And>st. routes (snd (call_init name (plugin_instance d) st)) = routes st @ r1"
    by blast
  have fst_same: "\<And>st st'. fst (call_init name (plugin_instance d) st) = fst (call_init name (plugin_instance d) st')"
    by (simp add: call_init_def split: init_prop.splits)
  show ?case
  proof (cases "enabled d")
    case False
    then show ?thesis using x IH
      by (intro exI [of _ mws] exI [of _ rts]) (simp add: console_write_def)
  next
    case True
    show ?thesis
    proof (cases "fst (call_init name (plugin_instance d) undefined)")
      case (Inl e)
      have "\<And>st. fst (call_init name (plugin_instance d) st) = Inl e"
        using Inl fst_same by metis
      then have "\<And>st. init_plugins (x # ps) st =
          (Inl e, console_write (ErrorFailedInit name e) (snd (call_init name (plugin_instance d) st)))"
        using True x by (simp split: prod.splits sum.splits) (metis fst_conv snd_conv sum.inject(1) Inl_Inr_False)
      then show ?thesis using c
        by (intro exI [of _ m1] exI [of _ r1]) (simp add: console_write_def)
    next
      case (Inr u)
      have "\<And>st. fst (call_init name (plugin_instance d) st) = Inr u"
        using Inr fst_same by metis
      then have "\<And>st. init_plugins (x # ps) st =
          init_plugins ps (console_write (LogInitialized name) (snd (call_init name (plugin_instance d) st)))"
        using True x by (simp split: prod.splits sum.splits) (metis fst_conv snd_conv sum.inject(2) Inl_Inr_False)
      then show ?thesis using c IH
        by (intro exI [of _ "m1 @ mws"] exI [of _ "r1 @ rts"]) (simp add: console_write_def)
    qed
  qed
qed

lemmas demo_defs = demo_manager_def new_manager_def entry_def plugin_of_def init_def call_init_def
  console_write_def addMiddleware_def registerHook_def enabled_names_def

lemma init_failure:
  assumes "\<not> initialized st"
    and "plugins st = pre @ (name, d) # post"
    and "\<forall>(n, p) \<in> set pre. enabled p \<longrightarrow> resolves (m_init (plugin_instance p))"
    and "enabled d"
    and "m_init (plugin_instance d) = InitFunction acts (Some e)"
  shows "\<exists>st1. init app st = (Inl e, st1)
           \<and> plugins st1 = plugins st
           \<and> \<not> initialized st1
           \<and> calls st1 = calls st @ map InitCall (enabled_names pre @ [name])
           \<and> last (console st1) = ErrorFailedInit name e"
proof -
  let ?st0 = "console_write (LogInitializing (length (plugins st))) st"
  from init_plugins_prefix [OF assms(3), of "(name, d) # post" ?st0]
  obtain st1 where st1: "init_plugins (pre @ (name, d) # post) ?st0 = init_plugins ((name, d) # post) st1"
    "plugins st1 = plugins ?st0"
    "initialized st1 = initialized ?st0" "calls st1 = calls ?st0 @ map InitCall (enabled_names pre)"
    by blast
  from call_init_rejects [OF assms(5), of name st1]
  obtain st2 where st2: "call_init name (plugin_instance d) st1 = (Inl e, st2)"
    "plugins st2 = plugins st1"
    "initialized st2 = initialized st1" "calls st2 = calls st1 @ [InitCall name]"
    by blast
  have "init_plugins (plugins st) ?st0 = (Inl e, console_write (ErrorFailedInit name e) st2)"
    using assms(2,4) st1(1) st2(1) by simp
  with assms(1) have "init app st = (Inl e, console_write (ErrorFailedInit name e) st2)"
    by (simp add: init_def)
  then show ?thesis
    using assms(1) st1(2,3,4) st2(2,3,4)
    by (intro exI [of _ "console_write (ErrorFailedInit name e) st2"]) (simp add: console_write_def)
qed

lemma init_failure_adds:
  assumes "\<not> initialized st" and "init app st = (Inl e, st1)"
  shows "st1 = snd (init_plugins (plugins st) (console_write (LogInitializing (length (plugins st))) st))"
  using assms
  by (auto simp: init_def runHook_def split: prod.splits sum.splits)

text \<open>
  C5. The first run of \<open>init\<close> (the \<open>initAll\<close> of the specification), on a manager whose
  plugins are \<open>pre\<close>, then \<open>name\<close>, then \<open>post\<close>, where \<open>name\<close> is the first enabled
  plugin whose \<open>init\<close> throws: the error \<open>e\<close> is thrown out of \<open>init\<close>, the last line on
  the console reports it, and the calls made are exactly the \<open>init\<close> of the enabled
  plugins of \<open>pre\<close>, in order, followed by that of \<open>name\<close>. So the disabled plugins are
  skipped, no plugin of \<open>post\<close> is initialised, and the \<open>plugins:initialized\<close> hook is
  not run.
\<close>

theorem init_aborts_at_first_failure:
  assumes "\<not> initialized st"
    and "plugins st = pre @ (name, d) # post"
    and "\<forall>(n, p) \<in> set pre. enabled p \<longrightarrow> resolves (m_init (plugin_instance p))"
    and "enabled d"
    and "m_init (plugin_instance d) = InitFunction acts (Some e)"
  shows "fst (init app st) = Inl e
       \<and> calls (snd (init app st)) = calls st @ map InitCall (enabled_names pre @ [name])
       \<and> last (console (snd (init app st))) = ErrorFailedInit name e"
  using init_failure [OF assms, of app] by auto

theorem init_aborts_at_first_failure_witness:
  "\<not> initialized demo_manager
   \<and> fst (init 0 demo_manager) = Inl (Thrown ''boom'')
   \<and> calls (snd (init 0 demo_manager)) = [InitCall ''a'', InitCall ''c'']
   \<and> last (console (snd (init 0 demo_manager))) = ErrorFailedInit ''c'' (Thrown ''boom'')"
proof -
  let ?pre = "[entry ''a'' True (plugin_of [CallAddMiddleware ''mw-a''] None),
               entry ''b'' False (plugin_of [CallAppGet ''/b''] None)] :: (string \<times> nat plugin_data) list"
  let ?d = "snd (entry ''c'' True (plugin_of [CallAppGet ''/c''] (Some (Thrown ''boom''))) :: string \<times> nat plugin_data)"
  let ?post = "[entry ''d'' True (plugin_of [CallAppGet ''/d''] None)] :: (string \<times> nat plugin_data) list"
  have h1: "\<not> initialized demo_manager"
    by (simp add: demo_manager_def new_manager_def)
  have h2: "plugins demo_manager = ?pre @ (''c'', ?d) # ?post"
    by (simp add: demo_manager_def new_manager_def entry_def)
  have h3: "\<forall>(n, p) \<in> set ?pre. enabled p \<longrightarrow> resolves (m_init (plugin_instance p))"
    by (simp add: entry_def plugin_of_def)
  have h4: "enabled ?d"
    by (simp add: entry_def)
  have h5: "m_init (plugin_instance ?d) = InitFunction [CallAppGet ''/c''] (Some (Thrown ''boom''))"
    by (simp add: entry_def plugin_of_def)
  have names: "enabled_names ?pre = [''a'']"
    by (simp add: enabled_names_def entry_def)
  have c0: "calls demo_manager = []"
    by (simp add: demo_manager_def new_manager_def)
  from init_aborts_at_first_failure [OF h1 h2 h3 h4 h5, of 0] h1 names c0
  show ?thesis by simp
qed

text \<open>
  C9. When \<open>init\<close> is aborted by the error \<open>e\<close> of the plugin \<open>name\<close>, the manager is
  still not initialised. A second \<open>init\<close> does not take the already-initialised branch:
  it calls the \<open>init\<close> of the enabled plugins from the first one on, those of \<open>pre\<close>
  that had succeeded included, and fails at \<open>name\<close> again. What the first run added to
  the middleware stack and to the routes stays and is added a second time.
\<close>

theorem init_failure_not_latched:
  assumes "\<not> initialized st"
    and "plugins st = pre @ (name, d) # post"
    and "\<forall>(n, p) \<in> set pre. enabled p \<longrightarrow> resolves (m_init (plugin_instance p))"
    and "enabled d"
    and "m_init (plugin_instance d) = InitFunction acts (Some e)"
  shows "\<exists>st1 st2 mws rts.
           init app st = (Inl e, st1) \<and> \<not> initialized st1
         \<and> init app' st1 = (Inl e, st2) \<and> \<not> initialized st2
         \<and> calls st2 = calls st1 @ map InitCall (enabled_names pre @ [name])
         \<and> middleware st1 = middleware st @ mws \<and> middleware st2 = middleware st @ mws @ mws
         \<and> routes st1 = routes st @ rts \<and> routes st2 = routes st @ rts @ rts"
proof -
  from init_failure [OF assms, of app]
  obtain st1 where st1: "init app st = (Inl e, st1)" "plugins st1 = plugins st" "\<not> initialized st1"
    by blast
  from assms(2) st1(2) have p1: "plugins st1 = pre @ (name, d) # post" by simp
  from init_failure [OF st1(3) p1 assms(3,4,5), of app']
  obtain st2 where st2: "init app' st1 = (Inl e, st2)" "\<not> initialized st2"
    "calls st2 = calls st1 @ map InitCall (enabled_names pre @ [name])"
    by blast
  from init_plugins_adds [of "plugins st"]
  obtain mws rts where adds:
    "\<And>s. middleware (snd (init_plugins (plugins st) s)) = middleware s @ mws"
    "\<And>s. routes (snd (init_plugins (plugins st) s)) = routes s @ rts"
    by blast
  have m1: "middleware st1 = middleware st @ mws" and r1: "routes st1 = routes st @ rts"
    using init_failure_adds [OF assms(1) st1(1)] adds by (simp_all add: console_write_def)
  have m2: "middleware st2 = middleware st1 @ mws" and r2: "routes st2 = routes st1 @ rts"
    using init_failure_adds [OF st1(3) st2(1)] adds st1(2) by (simp_all add: console_write_def)
  show ?thesis
    using st1(1,3) st2 m1 m2 r1 r2
    by (intro exI [of _ st1] exI [of _ st2] exI [of _ mws] exI [of _ rts]) simp
qed

theorem init_failure_not_latched_witness:
  "\<not> initialized demo_manager
   \<and> fst (init 0 demo_manager) = Inl (Thrown ''boom'')
   \<and> \<not> initialized (snd (init 0 demo_manager))
   \<and> fst (init 1 (snd (init 0 demo_manager))) = Inl (Thrown ''boom'')
   \<and> calls (snd (init 1 (snd (init 0 demo_manager))))
       = [InitCall ''a'', InitCall ''c'', InitCall ''a'', InitCall ''c'']
   \<and> middleware (snd (init 1 (snd (init 0 demo_manager)))) = [''mw-a'', ''mw-a'']
   \<and> routes (snd (init 1 (snd (init 0 demo_manager)))) = [''/c'', ''/c'']"
proof -
  let ?pre = "[entry ''a'' True (plugin_of [CallAddMiddleware ''mw-a''] None),
               entry ''b'' False (plugin_of [CallAppGet ''/b''] None)] :: (string \<times> nat plugin_data) list"
  let ?d = "snd (entry ''c'' True (plugin_of [CallAppGet ''/c''] (Some (Thrown ''boom''))) :: string \<times> nat plugin_data)"
  let ?post = "[entry ''d'' True (plugin_of [CallAppGet ''/d''] None)] :: (string \<times> nat plugin_data) list"
  have h1: "\<not> initialized demo_manager"
    by (simp add: demo_manager_def new_manager_def)
  have h2: "plugins demo_manager = ?pre @ (''c'', ?d) # ?post"
    by (simp add: demo_manager_def new_manager_def entry_def)
  have h3: "\<forall>(n, p) \<in> set ?pre. enabled p \<longrightarrow> resolves (m_init (plugin_instance p))"
    by (simp add: entry_def plugin_of_def)
  have h4: "enabled ?d"
    by (simp add: entry_def)
  have h5: "m_init (plugin_instance ?d) = InitFunction [CallAppGet ''/c''] (Some (Thrown ''boom''))"
    by (simp add: entry_def plugin_of_def)
  have names: "enabled_names ?pre = [''a'']"
    by (simp add: enabled_names_def entry_def)
  have first: "calls (snd (init 0 demo_manager)) = [InitCall ''a'', InitCall ''c'']"
    "middleware (snd (init 0 demo_manager)) = [''mw-a'']"
    "routes (snd (init 0 demo_manager)) = [''/c'']"
    by (simp_all add: demo_defs)
  have start: "middleware demo_manager = []" "routes demo_manager = []"
    by (simp_all add: demo_manager_def new_manager_def)
  from init_failure_not_latched [OF h1 h2 h3 h4 h5, of 0 1]
  obtain st1 st2 mws rts where r:
    "init 0 demo_manager = (Inl (Thrown ''boom''), st1)" "\<not> initialized st1"
    "init 1 st1 = (Inl (Thrown ''boom''), st2)"
    "calls st2 = calls st1 @ map InitCall (enabled_names ?pre @ [''c''])"
    "middleware st1 = middleware demo_manager @ mws" "middleware st2 = middleware demo_manager @ mws @ mws"
    "routes st1 = routes demo_manager @ rts" "routes st2 = routes demo_manager @ rts @ rts"
    by blast
  from r(1) have s1: "st1 = snd (init 0 demo_manager)" by simp
  from r(3) s1 have s2: "st2 = snd (init 1 (snd (init 0 demo_manager)))" by simp
  from r(5,7) s1 first start have added: "mws = [''mw-a'']" "rts = [''/c'']" by simp_all
  have c1: "fst (init 0 demo_manager) = Inl (Thrown ''boom'')"
    using r(1) by simp
  have c2: "\<not> initialized (snd (init 0 demo_manager))"
    using r(2) s1 by simp
  have c3: "fst (init 1 (snd (init 0 demo_manager))) = Inl (Thrown ''boom'')"
    using r(3) s1 by simp
  have c4: "calls (snd (init 1 (snd (init 0 demo_manager))))
       = [InitCall ''a'', InitCall ''c'', InitCall ''a'', InitCall ''c'']"
    using r(4) s1 s2 first(1) names by simp
  have c5: "middleware (snd (init 1 (snd (init 0 demo_manager)))) = [''mw-a'', ''mw-a'']"
    using r(6) s2 added start by simp
  have c6: "routes (snd (init 1 (snd (init 0 demo_manager)))) = [''/c'', ''/c'']"
    using r(8) s2 added start by simp
  show ?thesis
    using h1 c1 c2 c3 c4 c5 c6 by (intro conjI)
qed

lemma init_calls_append: "init_calls (xs @ ys) = init_calls xs @ init_calls ys"
  by (induction xs rule: init_calls.induct) simp_all

lemma run_callbacks_keeps:
  "plugins (snd (run_callbacks h cbs v st)) = plugins st
   \<and> initialized (snd (run_callbacks h cbs v st)) = initialized st
   \<and> calls (snd (run_callbacks h cbs v st)) = calls st"
  by (induction cbs arbitrary: v st) (auto simp: console_write_def split: settled.splits)

lemma runHook_keeps:
  "plugins (snd (runHook h data st)) = plugins st
   \<and> initialized (snd (runHook h data st)) = initialized st
   \<and> calls (snd (runHook h data st)) = calls st @ [HookRun h data]"
  using run_callbacks_keeps [of h "hooks_get st h" data "st\<lparr>calls := calls st @ [HookRun h data]\<rparr>"]
  by (auto simp: runHook_def split: prod.splits)

lemma register_keeps:
  "initialized (snd (register name plugin st)) = initialized st
   \<and> calls (snd (register name plugin st)) = calls st"
  by (simp add: register_def console_write_def)

lemma enable_keeps:
  "initialized (snd (enable name st)) = initialized st \<and> calls (snd (enable name st)) = calls st"
  by (simp add: enable_def split: option.splits)

lemma disable_keeps:
  "initialized (snd (disable name st)) = initialized st \<and> calls (snd (disable name st)) = calls st"
  by (simp add: disable_def split: option.splits)

lemma load_body_keeps:
  "initialized (snd (load_body env pluginPath st)) = initialized st
   \<and> calls (snd (load_body env pluginPath st)) = calls st"
proof (cases "require env pluginPath")
  case (Inl e)
  then show ?thesis by (simp add: load_body_def)
next
  case req: (Inr plugin)
  show ?thesis
  proof (cases "derive_name plugin pluginPath")
    case (Inl e)
    with req show ?thesis by (simp add: load_body_def)
  next
    case nm: (Inr name)
    obtain r s1 where reg: "register name plugin st = (r, s1)"
      by (cases "register name plugin st")
    with register_keeps [of name plugin st]
    have "initialized s1 = initialized st" "calls s1 = calls st"
      by simp_all
    with req nm reg show ?thesis
      by (cases r) (simp_all add: load_body_def)
  qed
qed

lemma load_keeps:
  "initialized (snd (load env pluginPath st)) = initialized st
   \<and> calls (snd (load env pluginPath st)) = calls st"
proof -
  obtain r s1 where b: "load_body env pluginPath st = (r, s1)"
    by (cases "load_body env pluginPath st")
  with load_body_keeps [of env pluginPath st]
  have "initialized s1 = initialized st" "calls s1 = calls st"
    by simp_all
  with b show ?thesis
    by (cases r) (simp_all add: load_def console_write_def)
qed

lemma load_files_keeps:
  "initialized (snd (load_files env files st)) = initialized st
   \<and> calls (snd (load_files env files st)) = calls st"
proof (induction files arbitrary: st)
  case Nil
  show ?case by simp
next
  case (Cons f rest)
  obtain r st1 where l: "load env f st = (r, st1)" by (cases "load env f st")
  with load_keeps [of env f st] have k: "initialized st1 = initialized st" "calls st1 = calls st"
    by simp_all
  show ?case
  proof (cases r)
    case (Inr name)
    with Cons l k show ?thesis by simp
  next
    case (Inl e)
    with Cons l k show ?thesis
      by (cases "message e") (simp_all add: console_write_def)
  qed
qed

lemma loadFromDirectory_keeps:
  "initialized (snd (loadFromDirectory env dir st)) = initialized st
   \<and> calls (snd (loadFromDirectory env dir st)) = calls st"
  by (simp add: loadFromDirectory_def load_files_keeps console_write_def Let_def split: sum.splits)

lemma init_when_initialized:
  "initialized st \<Longrightarrow> init app st = (Inr (), console_write WarnAlreadyInitialized st)"
  by (simp add: init_def)

lemma exec_keeps:
  assumes "initialized st"
  shows "initialized (exec env c st) \<and> init_calls (calls (exec env c st)) = init_calls (calls st)"
proof (cases c)
  case (Register name plugin)
  then show ?thesis using assms register_keeps [of name plugin st] by simp
next
  case (Init app)
  then show ?thesis using assms by (simp add: init_when_initialized console_write_def)
next
  case (RegisterHook h cb)
  then show ?thesis using assms by (simp add: registerHook_def)
next
  case (RunHook h data)
  then show ?thesis using assms runHook_keeps [of h data st] by (simp add: init_calls_append)
next
  case (AddMiddleware mw)
  then show ?thesis using assms by (simp add: addMiddleware_def)
next
  case (Enable name)
  then show ?thesis using assms enable_keeps [of name st] by simp
next
  case (Disable name)
  then show ?thesis using assms disable_keeps [of name st] by simp
next
  case (Load pluginPath)
  then show ?thesis using assms load_keeps [of env pluginPath st] by simp
next
  case (LoadFromDirectory dir)
  then show ?thesis using assms loadFromDirectory_keeps [of env dir st] by simp
qed

lemma exec_all_keeps:
  "initialized st \<Longrightarrow>
   initialized (exec_all env cs st) \<and> init_calls (calls (exec_all env cs st)) = init_calls (calls st)"
proof (induction cs arbitrary: st)
  case Nil
  then show ?case by (simp add: exec_all_def)
next
  case (Cons c cs)
  from exec_keeps [OF Cons.prems, of env c]
  have "initialized (exec env c st)" "init_calls (calls (exec env c st)) = init_calls (calls st)"
    by simp_all
  with Cons.IH [of "exec env c st"] show ?case
    by (simp add: exec_all_def)
qed

lemma init_success_initialized:
  assumes "init app st = (Inr u, st1)"
  shows "initialized st1"
proof (cases "initialized st")
  case True
  with assms show ?thesis by (auto simp: init_when_initialized console_write_def)
next
  case False
  obtain r1 s1 where ip: "init_plugins (plugins st)
      (console_write (LogInitializing (length (plugins st))) st) = (r1, s1)"
    by (cases "init_plugins (plugins st) (console_write (LogInitializing (length (plugins st))) st)")
  show ?thesis
  proof (cases r1)
    case (Inl e)
    with assms False ip show ?thesis by (simp add: init_def)
  next
    case (Inr u1)
    obtain r2 s2 where rh: "runHook ''plugins:initialized'' (Defined app) (s1\<lparr>initialized := True\<rparr>) = (r2, s2)"
      by (cases "runHook ''plugins:initialized'' (Defined app) (s1\<lparr>initialized := True\<rparr>)")
    with runHook_keeps [of "''plugins:initialized''" "Defined app" "s1\<lparr>initialized := True\<rparr>"]
    have "initialized s2" by simp
    with assms False ip Inr rh show ?thesis
      by (cases r2) (simp_all add: init_def)
  qed
qed

text \<open>
  When every enabled plugin resolves, \<open>init\<close> calls them in the order of the map,
  skips the disabled ones, sets the flag and runs the \<open>plugins:initialized\<close> hook.
\<close>

lemma init_all_resolve:
  assumes "\<not> initialized st"
    and "\<forall>(n, p) \<in> set (plugins st). enabled p \<longrightarrow> resolves (m_init (plugin_instance p))"
  shows "fst (init app st) = Inr ()
       \<and> initialized (snd (init app st))
       \<and> calls (snd (init app st))
           = calls st @ map InitCall (enabled_names (plugins st))
               @ [HookRun ''plugins:initialized'' (Defined app)]"
proof -
  let ?st0 = "console_write (LogInitializing (length (plugins st))) st"
  from init_plugins_prefix [OF assms(2), of "[]" ?st0]
  obtain st1 where st1: "init_plugins (plugins st) ?st0 = (Inr (), st1)"
    "calls st1 = calls ?st0 @ map InitCall (enabled_names (plugins st))"
    by auto
  obtain r st2 where rh: "runHook ''plugins:initialized'' (Defined app) (st1\<lparr>initialized := True\<rparr>) = (r, st2)"
    by (cases "runHook ''plugins:initialized'' (Defined app) (st1\<lparr>initialized := True\<rparr>)")
  with runHook_keeps [of "''plugins:initialized''" "Defined app" "st1\<lparr>initialized := True\<rparr>"]
  have k: "initialized st2" "calls st2 = calls st1 @ [HookRun ''plugins:initialized'' (Defined app)]"
    by simp_all
  from rh obtain v where v: "r = Inr v"
    by (auto simp: runHook_def split: prod.splits)
  from assms(1) st1(1) rh v have "init app st = (Inr (), st2)"
    by (simp add: init_def)
  with k st1(2) show ?thesis
    by (simp add: console_write_def)
qed

text \<open>
  C6. Once \<open>init\<close> has returned without error the manager is initialised, and whatever
  methods are called afterwards, a later \<open>init\<close> only writes the warning and returns:
  it adds no call, so no plugin is initialised again and the hook is not run again.
\<close>

theorem init_twice_noop:
  assumes "init app st = (Inr (), st1)"
  shows "initialized st1
       \<and> (\<forall>cs app'. init app' (exec_all env cs st1)
             = (Inr (), console_write WarnAlreadyInitialized (exec_all env cs st1))
           \<and> calls (snd (init app' (exec_all env cs st1))) = calls (exec_all env cs st1)
           \<and> init_calls (calls (snd (init app' (exec_all env cs st1)))) = init_calls (calls st1))"
proof -
  have i: "initialized st1" using init_success_initialized [OF assms] .
  show ?thesis
  proof (intro conjI allI)
    show "initialized st1" by (rule i)
  next
    fix cs app'
    from exec_all_keeps [OF i, of env cs]
    have k: "initialized (exec_all env cs st1)"
      "init_calls (calls (exec_all env cs st1)) = init_calls (calls st1)"
      by simp_all
    show "init app' (exec_all env cs st1)
             = (Inr (), console_write WarnAlreadyInitialized (exec_all env cs st1))"
      using k(1) by (rule init_when_initialized)
    then show "calls (snd (init app' (exec_all env cs st1))) = calls (exec_all env cs st1)"
      by (simp add: console_write_def)
    then show "init_calls (calls (snd (init app' (exec_all env cs st1)))) = init_calls (calls st1)"
      using k(2) by simp
  qed
qed

theorem init_twice_noop_witness:
  "init 0 ok_manager = (Inr (), snd (init 0 ok_manager))
   \<and> initialized (snd (init 0 ok_manager))
   \<and> init 7 (exec_all demo_env [Enable ''b'', Init 5] (snd (init 0 ok_manager)))
       = (Inr (), console_write WarnAlreadyInitialized
                    (exec_all demo_env [Enable ''b'', Init 5] (snd (init 0 ok_manager))))
   \<and> init_calls (calls (snd (init 7 (exec_all demo_env [Enable ''b'', Init 5] (snd (init 0 ok_manager))))))
       = [''a'']"
proof -
  have h: "init 0 ok_manager = (Inr (), snd (init 0 ok_manager))"
    by (simp add: ok_manager_def demo_defs runHook_def hooks_get_def)
  have c: "init_calls (calls (snd (init 0 ok_manager))) = [''a'']"
    by (simp add: ok_manager_def demo_defs runHook_def hooks_get_def)
  note t = init_twice_noop [OF h, of demo_env]
  from t have i: "initialized (snd (init 0 ok_manager))"
    by blast
  from t have n: "init 7 (exec_all demo_env [Enable ''b'', Init 5] (snd (init 0 ok_manager)))
       = (Inr (), console_write WarnAlreadyInitialized
                    (exec_all demo_env [Enable ''b'', Init 5] (snd (init 0 ok_manager))))"
    by blast
  from t have "init_calls (calls (snd (init 7 (exec_all demo_env [Enable ''b'', Init 5] (snd (init 0 ok_manager))))))
       = init_calls (calls (snd (init 0 ok_manager)))"
    by blast
  with c have k: "init_calls (calls (snd (init 7 (exec_all demo_env [Enable ''b'', Init 5] (snd (init 0 ok_manager))))))
       = [''a'']"
    by simp
  show ?thesis
    using h i n k by (intro conjI)
qed

text \<open>
  C10. On an initialised manager, \<open>register\<close> of a fresh name with a callable \<open>init\<close>
  succeeds and the plugin is listed by \<open>list()\<close> with \<open>enabled = true\<close>; whatever methods
  are called afterwards (\<open>init\<close>, \<open>enable\<close> and \<open>disable\<close> of that plugin among them), no
  \<open>init\<close> of any plugin is called any more.
\<close>

theorem late_plugin_never_initialized:
  assumes "initialized st" and "\<not> plugins_has st name" and "callable (m_init plugin)"
  shows "fst (register name plugin st) = Inr This
       \<and> (name, True, (case m_metadata plugin of None \<Rightarrow> empty_metadata | Some md \<Rightarrow> md))
            \<in> set (list_plugins (snd (register name plugin st)))
       \<and> (\<forall>cs. init_calls (calls (exec_all env cs (snd (register name plugin st)))) = init_calls (calls st))"
proof -
  let ?st1 = "snd (register name plugin st)"
  have i: "initialized ?st1" "calls ?st1 = calls st"
    using assms(1) register_keeps [of name plugin st] by simp_all
  have "\<forall>cs. init_calls (calls (exec_all env cs ?st1)) = init_calls (calls st)"
    using exec_all_keeps [OF i(1), of env] i(2) by simp
  moreover have "fst (register name plugin st) = Inr This"
    using assms(2,3) by (simp add: register_def)
  moreover have "(name, True, (case m_metadata plugin of None \<Rightarrow> empty_metadata | Some md \<Rightarrow> md))
            \<in> set (list_plugins ?st1)"
    using assms(2,3) by (simp add: register_def list_plugins_def console_write_def)
  ultimately show ?thesis by blast
qed

theorem late_plugin_never_initialized_witness:
  "initialized (snd (init 0 ok_manager))
   \<and> \<not> plugins_has (snd (init 0 ok_manager)) ''late''
   \<and> fst (register ''late'' (plugin_of [CallAppGet ''/late''] None) (snd (init 0 ok_manager))) = Inr This
   \<and> (''late'', True, empty_metadata)
        \<in> set (list_plugins (snd (register ''late'' (plugin_of [CallAppGet ''/late''] None) (snd (init 0 ok_manager)))))
   \<and> init_calls (calls (exec_all demo_env [Disable ''late'', Enable ''late'', Init 1]
        (snd (register ''late'' (plugin_of [CallAppGet ''/late''] None) (snd (init 0 ok_manager))))))
       = [''a'']"
proof -
  let ?st = "snd (init 0 ok_manager)"
  let ?p = "plugin_of [CallAppGet ''/late''] None :: nat plugin_module"
  have h1: "initialized ?st"
    by (simp add: ok_manager_def demo_defs runHook_def hooks_get_def)
  have h2: "\<not> plugins_has ?st ''late''"
    by (simp add: ok_manager_def demo_defs runHook_def hooks_get_def plugins_has_def plugins_get_def)
  have h3: "callable (m_init ?p)"
    by (simp add: plugin_of_def)
  have c: "init_calls (calls ?st) = [''a'']"
    by (simp add: ok_manager_def demo_defs runHook_def hooks_get_def)
  have md: "(case m_metadata ?p of None \<Rightarrow> empty_metadata | Some md \<Rightarrow> md) = empty_metadata"
    by (simp add: plugin_of_def)
  from late_plugin_never_initialized [OF h1 h2 h3, of demo_env] h1 h2 c md
  show ?thesis by simp
qed

section \<open>Loading\<close>

text \<open>
  C1. \<open>loadFromDirectory\<close> is claimed to sort the plugin files of the directory by
  file name before loading them, so that \<open>a\<close> is registered before \<open>b\<close>. It does not
  sort: the files are loaded in the order in which \<open>readdirSync\<close> returns their names.
  For a directory listed as \<open>b.js\<close>, \<open>a.js\<close> the call returns without error and the
  map of plugins holds \<open>b\<close> before \<open>a\<close>.
\<close>

theorem loadFromDirectory_keeps_listing_order:
  "fst (loadFromDirectory demo_env ''plugins'' new_manager) = Inr ()
   \<and> map fst (plugins (snd (loadFromDirectory demo_env ''plugins'' new_manager))) = [''b'', ''a'']"
  by (simp add: loadFromDirectory_def existsSync_def readdirSync_def demo_env_def plugin_files_def
      endsWith_def path_join_def normalize_def normalizeString_def normalize_segment_def
      load_def load_body_def derive_name_def default_name_def pop_def
      startsWith_def register_def plugins_has_def plugins_get_def plugin_of_def new_manager_def
      console_write_def)

text \<open>
  C8. \<open>load\<close> is claimed to register a module without a metadata name under the base
  name of the file with only the trailing \<open>.js\<close> removed. The first occurrence of
  \<open>.js\<close> in the base name is removed instead: the module of \<open>plugins/data.json.js\<close> is
  registered as \<open>dataon.js\<close>, not as \<open>data.json\<close>.
\<close>

theorem load_strips_first_occurrence:
  "fst (load any_env ''plugins/data.json.js'' new_manager) = Inr ''dataon.js''
   \<and> map fst (plugins (snd (load any_env ''plugins/data.json.js'' new_manager))) = [''dataon.js'']"
  by (simp add: any_env_def load_def load_body_def derive_name_def default_name_def pop_def
      startsWith_def register_def plugins_has_def plugins_get_def plugin_of_def new_manager_def
      console_write_def)

text \<open>\<open>path.join\<close> on directory paths that need normalising.\<close>

lemma path_join_normalises:
  "path_join ''./plugins'' ''x.js'' = ''plugins/x.js''
   \<and> path_join ''plugins/'' ''x.js'' = ''plugins/x.js''
   \<and> path_join ''/srv/app/../plugins'' ''x.js'' = ''/srv/plugins/x.js''"
  by (simp add: path_join_def normalize_def normalizeString_def normalize_segment_def)














end
